theory Spec2Isabelle
  imports Complex_Main "HOL-Library.Multiset"
begin

section \<open>JavaScript numbers\<close>

text \<open>
  The collectors compute with JavaScript numbers. A finite number is carried as an exact
  rational: the rounding of IEEE doubles is not part of this development, so a sum is
  the exact sum. What is kept of IEEE arithmetic is what does not depend on rounding:
  a division by zero raises nothing and yields \<open>NaN\<close> or an infinity, and these
  values propagate through \<open>+\<close> and \<open>*\<close>. The sign of zero is not carried
  (a zero divisor counts as \<open>+0\<close>).

  Stakes come from \<open>parseInt\<close> of the decimal lamport string of a \<open>u64\<close>
  field, divided by \<open>1e9\<close>: they are finite and non-negative, and all sums of
  stakes are kept in \<open>rat\<close>. A value that results from a division whose divisor
  can be zero is a \<open>jsnum\<close>.
\<close>

datatype jsnum = Num rat | PosInf | NegInf | NaN

fun jadd :: "jsnum \<Rightarrow> jsnum \<Rightarrow> jsnum" where
  "jadd (Num a) (Num b) = Num (a + b)"
| "jadd NaN _ = NaN"
| "jadd _ NaN = NaN"
| "jadd PosInf NegInf = NaN"
| "jadd NegInf PosInf = NaN"
| "jadd PosInf _ = PosInf"
| "jadd _ PosInf = PosInf"
| "jadd NegInf _ = NegInf"
| "jadd _ NegInf = NegInf"

definition signed_inf :: "bool \<Rightarrow> jsnum" where
  "signed_inf pos = (if pos then PosInf else NegInf)"

fun jmul :: "jsnum \<Rightarrow> jsnum \<Rightarrow> jsnum" where
  "jmul (Num a) (Num b) = Num (a * b)"
| "jmul NaN _ = NaN"
| "jmul _ NaN = NaN"
| "jmul PosInf (Num b) = (if b = 0 then NaN else signed_inf (0 < b))"
| "jmul NegInf (Num b) = (if b = 0 then NaN else signed_inf (b < 0))"
| "jmul (Num a) PosInf = (if a = 0 then NaN else signed_inf (0 < a))"
| "jmul (Num a) NegInf = (if a = 0 then NaN else signed_inf (a < 0))"
| "jmul PosInf PosInf = PosInf"
| "jmul NegInf NegInf = PosInf"
| "jmul PosInf NegInf = NegInf"
| "jmul NegInf PosInf = NegInf"

fun jdiv :: "jsnum \<Rightarrow> jsnum \<Rightarrow> jsnum" where
  "jdiv (Num a) (Num b) =
     (if b = 0 then (if a = 0 then NaN else signed_inf (0 < a)) else Num (a / b))"
| "jdiv NaN _ = NaN"
| "jdiv _ NaN = NaN"
| "jdiv (Num a) _ = Num 0"
| "jdiv PosInf (Num b) = signed_inf (0 \<le> b)"
| "jdiv NegInf (Num b) = signed_inf (b < 0)"
| "jdiv _ _ = NaN"

text \<open>\<open>a < b\<close> on numbers: every comparison with \<open>NaN\<close> is false.\<close>

fun jless :: "jsnum \<Rightarrow> jsnum \<Rightarrow> bool" where
  "jless (Num a) (Num b) = (a < b)"
| "jless NaN _ = False"
| "jless _ NaN = False"
| "jless _ NegInf = False"
| "jless PosInf _ = False"
| "jless _ _ = True"

text \<open>
  \<open>x.toFixed(f)\<close>: the decimal string of \<open>x\<close> with \<open>f\<close> digits after the point.
  ECMAScript takes the integer \<open>n\<close> with \<open>n / 10^f\<close> nearest to \<open>x\<close>, the larger
  one at a tie, after the sign has been split off. \<open>NaN\<close> and the infinities print
  their names. A finite \<open>x\<close> with \<open>10^21 \<le> \<bar>x\<bar>\<close> is printed by JavaScript in
  exponent notation instead; no percentage of the collectors is in that range, and
  \<open>toFixed\<close> below prints the digits there too.
\<close>

definition digit_char :: "nat \<Rightarrow> char" where
  "digit_char d = ''0123456789'' ! d"

fun decimal :: "nat \<Rightarrow> string" where
  "decimal n = (if n < 10 then [digit_char n] else decimal (n div 10) @ [digit_char (n mod 10)])"

declare decimal.simps [simp del]

definition fixed_digits :: "nat \<Rightarrow> rat \<Rightarrow> string" where
  "fixed_digits f x =
     (let n = nat \<lfloor>x * 10 ^ f + 1 / 2\<rfloor>;
          m = decimal n;
          m' = (if f \<noteq> 0 \<and> length m \<le> f then replicate (f + 1 - length m) CHR ''0'' @ m else m);
          k = length m'
      in if f = 0 then m' else take (k - f) m' @ CHR ''.'' # drop (k - f) m')"

fun toFixed :: "nat \<Rightarrow> jsnum \<Rightarrow> string" where
  "toFixed f NaN = ''NaN''"
| "toFixed f PosInf = ''Infinity''"
| "toFixed f NegInf = ''-Infinity''"
| "toFixed f (Num x) = (if x < 0 then CHR ''-'' # fixed_digits f (- x) else fixed_digits f x)"

text \<open>\<open>xs[i]\<close> for any integer index: \<open>undefined\<close> outside the array.\<close>

definition js_index :: "'a list \<Rightarrow> int \<Rightarrow> 'a option" where
  "js_index xs i = (if 0 \<le> i \<and> i < int (length xs) then Some (xs ! nat i) else None)"

text \<open>\<open>xs[i] || 0\<close>: \<open>undefined\<close> and \<open>0\<close> are both falsy.\<close>

definition or0 :: "rat option \<Rightarrow> rat" where
  "or0 v = (case v of None \<Rightarrow> 0 | Some x \<Rightarrow> x)"

section \<open>The concentration metrics\<close>

text \<open>
  The loops below stand in all three collectors with the same text (only the names of
  the variables differ): \<open>analyzeStakeAccounts\<close> of collect.js, \<open>main\<close> of
  collect-enhanced.js and \<open>main\<close> of collect-network.js.

  \<^verbatim>\<open>let running = 0, nak33 = 0;
  for (const s of stakes) { running += s; nak33++; if (running >= totalActive / 3) break; }\<close>

  \<open>prefix_count thr running k stakes\<close> is the value of the counter when the loop, entered
  with \<open>running\<close> and \<open>k\<close>, leaves.
\<close>

fun prefix_count :: "rat \<Rightarrow> rat \<Rightarrow> nat \<Rightarrow> rat list \<Rightarrow> nat" where
  "prefix_count thr running k [] = k"
| "prefix_count thr running k (s # ss) =
     (if thr \<le> running + s then k + 1 else prefix_count thr (running + s) (k + 1) ss)"

definition nakamoto33 :: "rat list \<Rightarrow> rat \<Rightarrow> nat" where
  "nakamoto33 stakes totalActive = prefix_count (totalActive / 3) 0 0 stakes"

text \<open>The superminority loop compares with \<open>totalActive * 0.33\<close>.\<close>

definition superminority :: "rat list \<Rightarrow> rat \<Rightarrow> nat" where
  "superminority stakes totalActive = prefix_count (totalActive * (33 / 100)) 0 0 stakes"

text \<open>
  \<^verbatim>\<open>let hhi = 0;
  for (const s of activeStakes) { const share = s / totalActive; hhi += share * share; }\<close>
\<close>

fun hhi_loop :: "jsnum \<Rightarrow> rat \<Rightarrow> rat list \<Rightarrow> jsnum" where
  "hhi_loop h totalActive [] = h"
| "hhi_loop h totalActive (s # ss) =
     (let share = jdiv (Num s) (Num totalActive)
      in hhi_loop (jadd h (jmul share share)) totalActive ss)"

definition hhi :: "rat list \<Rightarrow> rat \<Rightarrow> jsnum" where
  "hhi stakes totalActive = hhi_loop (Num 0) totalActive stakes"

text \<open>
  \<^verbatim>\<open>const n = activeStakes.length;
  const sortedAsc = [...activeStakes].sort((a, b) => a - b);
  let giniSum = 0;
  for (let i = 0; i < n; i++) giniSum += (2 * (i + 1) - n - 1) * sortedAsc[i];
  const gini = n > 0 ? giniSum / (n * sortedAsc.reduce((a, b) => a + b, 0)) : 0;\<close>
\<close>

definition giniSum :: "nat \<Rightarrow> rat list \<Rightarrow> rat" where
  "giniSum n sortedAsc =
     foldl (\<lambda>g i. g + (2 * (rat_of_nat i + 1) - rat_of_nat n - 1) * sortedAsc ! i) 0 [0..<n]"

definition gini :: "rat list \<Rightarrow> jsnum" where
  "gini activeStakes =
     (let n = length activeStakes;
          sortedAsc = sort activeStakes
      in if 0 < n then jdiv (Num (giniSum n sortedAsc)) (Num (rat_of_nat n * foldl (+) 0 sortedAsc))
         else Num 0)"

text \<open>
  The stake buckets: a table of ranges, each with a counter and a stake sum; the upper
  bound of the last range is \<open>Infinity\<close>.

  \<^verbatim>\<open>for (const v of activeValidators) {
    for (const b of buckets) {
      if (v.activeStake >= b.min && v.activeStake < b.max) { b.count++; b.stake += v.activeStake; break; }
    }
  }\<close>
\<close>

record bucket =
  b_label :: string
  b_min :: rat
  b_max :: jsnum
  b_count :: nat
  b_stake :: rat

definition in_bucket :: "rat \<Rightarrow> bucket \<Rightarrow> bool" where
  "in_bucket s b = (b_min b \<le> s \<and> jless (Num s) (b_max b))"

definition bump :: "rat \<Rightarrow> bucket \<Rightarrow> bucket" where
  "bump s b = b\<lparr>b_count := b_count b + 1, b_stake := b_stake b + s\<rparr>"

fun add_to_bucket :: "rat \<Rightarrow> bucket list \<Rightarrow> bucket list" where
  "add_to_bucket s [] = []"
| "add_to_bucket s (b # bs) = (if in_bucket s b then bump s b # bs else b # add_to_bucket s bs)"

definition fill_buckets :: "bucket list \<Rightarrow> rat list \<Rightarrow> bucket list" where
  "fill_buckets buckets stakes = foldl (\<lambda>bs s. add_to_bucket s bs) buckets stakes"

definition mk_bucket :: "string \<Rightarrow> rat \<Rightarrow> jsnum \<Rightarrow> bucket" where
  "mk_bucket l lo hi = \<lparr>b_label = l, b_min = lo, b_max = hi, b_count = 0, b_stake = 0\<rparr>"

section \<open>collect.js\<close>

subsection \<open>The fold over the stake accounts\<close>

text \<open>
  A stake account whose parsed data has no \<open>delegation\<close> is \<open>None\<close>. The
  \<open>stake\<close> of a delegation is the value \<open>parseInt\<close> reads from its decimal string,
  in lamports; \<open>deactivationEpoch\<close> stays the string it is, since the code compares
  it as a string.
\<close>

record delegation =
  del_stake :: nat
  del_voter :: string
  del_deactivationEpoch :: string
  del_activationEpoch :: nat

type_synonym stake_account = "delegation option"

record validator =
  voter :: string
  stakeAccounts :: nat
  totalStake :: rat
  activeStake :: rat
  deactivatingStake :: rat
  activationEpochs :: "nat list"

text \<open>
  The locals of the loop. \<open>validators\<close> is the object keyed by voter, kept as the list
  of its values in insertion order (the order of \<open>Object.values\<close>); a voter is a
  base58 public key, so no key is an array index or a name of \<open>Object.prototype\<close>.
\<close>

record totals =
  totalActive :: rat
  totalDeactivating :: rat
  totalEmpty :: nat
  validators :: "validator list"

definition init_totals :: totals where
  "init_totals = \<lparr>totalActive = 0, totalDeactivating = 0, totalEmpty = 0, validators = []\<rparr>"

definition not_deactivating :: string where
  "not_deactivating = ''18446744073709551615''"

definition new_validator :: "string \<Rightarrow> validator" where
  "new_validator k = \<lparr>voter = k, stakeAccounts = 0, totalStake = 0, activeStake = 0,
     deactivatingStake = 0, activationEpochs = []\<rparr>"

definition add_account :: "bool \<Rightarrow> rat \<Rightarrow> nat \<Rightarrow> validator \<Rightarrow> validator" where
  "add_account deactivating stake activationEpoch v =
     (let v1 = v\<lparr>stakeAccounts := stakeAccounts v + 1, totalStake := totalStake v + stake\<rparr>;
          v2 = (if deactivating then v1\<lparr>deactivatingStake := deactivatingStake v1 + stake\<rparr>
                else v1\<lparr>activeStake := activeStake v1 + stake\<rparr>)
      in v2\<lparr>activationEpochs := activationEpochs v2 @ [activationEpoch]\<rparr>)"

definition fold_account :: "totals \<Rightarrow> stake_account \<Rightarrow> totals" where
  "fold_account st acct =
     (case acct of
        None \<Rightarrow> st\<lparr>totalEmpty := totalEmpty st + 1\<rparr>
      | Some del \<Rightarrow>
          let stake = rat_of_nat (del_stake del) / 10 ^ 9;
              k = del_voter del;
              deactivating = (del_deactivationEpoch del \<noteq> not_deactivating);
              st1 = (if deactivating then st\<lparr>totalDeactivating := totalDeactivating st + stake\<rparr>
                     else st\<lparr>totalActive := totalActive st + stake\<rparr>);
              vs1 = (if k \<in> set (map voter (validators st1)) then validators st1
                     else validators st1 @ [new_validator k]);
              vs2 = map (\<lambda>v. if voter v = k
                                then add_account deactivating stake (del_activationEpoch del) v
                                else v) vs1
          in st1\<lparr>validators := vs2\<rparr>)"

definition fold_accounts :: "stake_account list \<Rightarrow> totals" where
  "fold_accounts accounts = foldl fold_account init_totals accounts"

subsection \<open>The analysis\<close>

record decentralization =
  d_nakamotoCoeff33 :: nat
  d_superminorityCount :: nat
  d_hhi :: jsnum
  d_gini :: jsnum

record stake_stats =
  s_mean :: jsnum
  s_median :: rat
  s_max :: rat
  s_min :: rat
  s_p10 :: rat
  s_p90 :: rat

record listed_validator =
  l_voter :: string
  l_activeStake :: rat
  l_deactivatingStake :: rat
  l_stakeAccounts :: nat

record top_validator =
  t_voter :: string
  t_activeStake :: rat
  t_deactivatingStake :: rat
  t_stakeAccounts :: nat
  t_pctOfTotal :: string

record analysis =
  a_totalAccounts :: nat
  a_emptyAccounts :: nat
  a_totalActive :: rat
  a_totalDeactivating :: rat
  a_uniqueValidators :: nat
  a_activeValidators :: nat
  a_decentralization :: decentralization
  a_stakeStats :: stake_stats
  a_stakeBuckets :: "bucket list"
  a_topValidators :: "top_validator list"
  a_allValidators :: "listed_validator list"

definition collect_buckets :: "bucket list" where
  "collect_buckets =
     [mk_bucket ''<1K SOL'' 0 (Num 1000),
      mk_bucket ''1K-10K'' 1000 (Num 10000),
      mk_bucket ''10K-50K'' 10000 (Num 50000),
      mk_bucket ''50K-100K'' 50000 (Num 100000),
      mk_bucket ''100K-500K'' 100000 (Num 500000),
      mk_bucket ''500K+'' 500000 PosInf]"

text \<open>
  \<open>sort((a, b) => b.activeStake - a.activeStake)\<close>: the sort of an array is stable,
  and so is \<open>sort_key\<close>; descending order is ascending order of the negated key.
\<close>

definition sortedValidators :: "validator list \<Rightarrow> validator list" where
  "sortedValidators vs = sort_key (\<lambda>v. - activeStake v) vs"

definition list_validator :: "validator \<Rightarrow> listed_validator" where
  "list_validator v = \<lparr>l_voter = voter v, l_activeStake = activeStake v,
     l_deactivatingStake = deactivatingStake v, l_stakeAccounts = stakeAccounts v\<rparr>"

definition top_validator_of :: "rat \<Rightarrow> validator \<Rightarrow> top_validator" where
  "top_validator_of tot v = \<lparr>t_voter = voter v, t_activeStake = activeStake v,
     t_deactivatingStake = deactivatingStake v, t_stakeAccounts = stakeAccounts v,
     t_pctOfTotal = toFixed 2 (jmul (jdiv (Num (activeStake v)) (Num tot)) (Num 100))\<rparr>"

text \<open>\<open>Math.floor(activeStakes.length * 0.1)\<close> and \<open>* 0.9\<close>, on exact numbers.\<close>

definition stakeStats :: "rat \<Rightarrow> rat list \<Rightarrow> stake_stats" where
  "stakeStats tot activeStakes =
     (let len = length activeStakes in
      \<lparr>s_mean = jdiv (Num tot) (Num (rat_of_nat len)),
       s_median = or0 (js_index activeStakes (int (len div 2))),
       s_max = or0 (js_index activeStakes 0),
       s_min = or0 (js_index activeStakes (int len - 1)),
       s_p10 = or0 (js_index activeStakes \<lfloor>rat_of_nat len * (1 / 10)\<rfloor>),
       s_p90 = or0 (js_index activeStakes \<lfloor>rat_of_nat len * (9 / 10)\<rfloor>)\<rparr>)"

definition analyzeStakeAccounts :: "stake_account list \<Rightarrow> analysis" where
  "analyzeStakeAccounts accounts =
     (let st = fold_accounts accounts;
          sorted = sortedValidators (validators st);
          activeValidators = filter (\<lambda>v. 0 < activeStake v) sorted;
          activeStakes = map activeStake activeValidators
      in \<lparr>a_totalAccounts = length accounts,
          a_emptyAccounts = totalEmpty st,
          a_totalActive = totalActive st,
          a_totalDeactivating = totalDeactivating st,
          a_uniqueValidators = length (validators st),
          a_activeValidators = length activeValidators,
          a_decentralization =
            \<lparr>d_nakamotoCoeff33 = nakamoto33 activeStakes (totalActive st),
             d_superminorityCount = superminority activeStakes (totalActive st),
             d_hhi = hhi activeStakes (totalActive st),
             d_gini = gini activeStakes\<rparr>,
          a_stakeStats = stakeStats (totalActive st) activeStakes,
          a_stakeBuckets = fill_buckets collect_buckets activeStakes,
          a_topValidators = map (top_validator_of (totalActive st)) (take 25 sorted),
          a_allValidators = map list_validator sorted\<rparr>)"

subsection \<open>The combined section of collect\<close>















section \<open>Tallies along a dimension\<close>

text \<open>
  collect-enhanced.js and collect-network.js count validators and sum stake per country,
  city, ASN, version and commission, each in an object keyed by the category:

  \<^verbatim>\<open>if (!countries[c]) countries[c] = { count: 0, stake: 0 };
  countries[c].count++; countries[c].stake += v.activeStake;\<close>

  A tally object is kept as the list of its entries in insertion order, each with its key.
\<close>

record tally =
  ty_name :: string
  ty_count :: nat
  ty_stake :: rat

definition tally_add :: "string \<Rightarrow> rat \<Rightarrow> tally list \<Rightarrow> tally list" where
  "tally_add k s ts =
     (let ts1 = (if k \<in> set (map ty_name ts) then ts
                 else ts @ [\<lparr>ty_name = k, ty_count = 0, ty_stake = 0\<rparr>])
      in map (\<lambda>t. if ty_name t = k then t\<lparr>ty_count := ty_count t + 1, ty_stake := ty_stake t + s\<rparr>
                   else t) ts1)"

definition tally_by :: "('v \<Rightarrow> string) \<Rightarrow> ('v \<Rightarrow> rat) \<Rightarrow> 'v list \<Rightarrow> tally list" where
  "tally_by key stake_of vs = foldl (\<lambda>ts v. tally_add (key v) (stake_of v) ts) [] vs"

text \<open>
  \<open>Object.entries\<close> and \<open>Object.values\<close> list the keys that are array indices (the
  decimal numeral of a number below \<open>2^32 - 1\<close>, such as the commission \<open>"5"\<close>)
  first, in ascending numeric order, and the other keys after them in insertion order.
\<close>

definition nat_of_digits :: "string \<Rightarrow> nat" where
  "nat_of_digits s = foldl (\<lambda>n c. 10 * n + (of_char c - 48)) 0 s"

definition array_index :: "string \<Rightarrow> nat option" where
  "array_index s =
     (if s \<noteq> [] \<and> list_all (\<lambda>c. c \<in> set ''0123456789'') s
         \<and> (hd s \<noteq> CHR ''0'' \<or> length s = 1) \<and> nat_of_digits s < 2 ^ 32 - 1
      then Some (nat_of_digits s) else None)"

definition object_entries :: "tally list \<Rightarrow> tally list" where
  "object_entries obj =
     sort_key (\<lambda>t. nat_of_digits (ty_name t)) (filter (\<lambda>t. array_index (ty_name t) \<noteq> None) obj)
     @ filter (\<lambda>t. array_index (ty_name t) = None) obj"

text \<open>
  \<^verbatim>\<open>const sortObj = (obj) => Object.entries(obj)
    .map(([k, v]) => ({ name: k, ...v, pct: (v.stake / totalActive * 100).toFixed(2) }))
    .sort((a, b) => b.stake - a.stake);\<close>
\<close>

record dim_entry =
  dim_name :: string
  dim_count :: nat
  dim_stake :: rat
  dim_pct :: string

definition dim_entry_of :: "rat \<Rightarrow> tally \<Rightarrow> dim_entry" where
  "dim_entry_of tot t =
     \<lparr>dim_name = ty_name t, dim_count = ty_count t, dim_stake = ty_stake t,
      dim_pct = toFixed 2 (jmul (jdiv (Num (ty_stake t)) (Num tot)) (Num 100))\<rparr>"

definition sortObj :: "rat \<Rightarrow> tally list \<Rightarrow> dim_entry list" where
  "sortObj tot obj = sort_key (\<lambda>e. - dim_stake e) (map (dim_entry_of tot) (object_entries obj))"

text \<open>\<open>a || b\<close> and \<open>a || "Unknown"\<close> on strings that may be \<open>null\<close>: the empty string is falsy.\<close>

definition js_or :: "string option \<Rightarrow> string option \<Rightarrow> string option" where
  "js_or a b = (case a of None \<Rightarrow> b | Some s \<Rightarrow> if s = [] then b else Some s)"

definition or_unknown :: "string option \<Rightarrow> string" where
  "or_unknown a = (case a of None \<Rightarrow> ''Unknown'' | Some s \<Rightarrow> if s = [] then ''Unknown'' else s)"

text \<open>
  The metadata of a validator, as the lookups in the stakewiz, vote-account and
  block-production maps and their defaults (\<open>||\<close>, \<open>??\<close>) leave them: the fields the
  sections of the reports read. The fields that are only copied into the validator
  listing (skip rate, leader slots, score, APY and the like) are left out. The collectors
  take the metadata as a function of the voter.
\<close>

record metadata =
  m_name :: "string option"
  m_commission :: "nat option"
  m_totalNetworkStake :: rat
  m_version :: "string option"
  m_delinquent :: bool
  m_country :: "string option"
  m_city :: "string option"
  m_asn :: "string option"
  m_asnOrg :: "string option"
  m_isJito :: bool
  m_jitoCommission :: "nat option"

text \<open>The metadata of a validator that no directory knows.\<close>

definition unknown_metadata :: "string \<Rightarrow> metadata" where
  "unknown_metadata k =
     \<lparr>m_name = None, m_commission = None, m_totalNetworkStake = 0, m_version = None,
      m_delinquent = False, m_country = None, m_city = None, m_asn = None, m_asnOrg = None,
      m_isJito = False, m_jitoCommission = None\<rparr>"

definition commission_key :: "nat option \<Rightarrow> string" where
  "commission_key c = (case c of None \<Rightarrow> ''Unknown'' | Some n \<Rightarrow> decimal n)"

section \<open>collect-enhanced.js\<close>

subsection \<open>One authority\<close>

record evalidator =
  e_voter :: string
  e_activeStake :: rat
  e_deactivatingStake :: rat
  e_accounts :: nat

record etotals =
  e_totalActive :: rat
  e_totalDeactivating :: rat
  e_totalEmpty :: nat
  e_validators :: "evalidator list"

definition e_init_totals :: etotals where
  "e_init_totals = \<lparr>e_totalActive = 0, e_totalDeactivating = 0, e_totalEmpty = 0, e_validators = []\<rparr>"

definition e_add_account :: "bool \<Rightarrow> rat \<Rightarrow> evalidator \<Rightarrow> evalidator" where
  "e_add_account deactivating stake v =
     (let v1 = v\<lparr>e_accounts := e_accounts v + 1\<rparr>
      in if deactivating then v1\<lparr>e_deactivatingStake := e_deactivatingStake v1 + stake\<rparr>
         else v1\<lparr>e_activeStake := e_activeStake v1 + stake\<rparr>)"

definition e_fold_account :: "etotals \<Rightarrow> stake_account \<Rightarrow> etotals" where
  "e_fold_account st acct =
     (case acct of
        None \<Rightarrow> st\<lparr>e_totalEmpty := e_totalEmpty st + 1\<rparr>
      | Some del \<Rightarrow>
          let stake = rat_of_nat (del_stake del) / 10 ^ 9;
              k = del_voter del;
              deactivating = (del_deactivationEpoch del \<noteq> not_deactivating);
              st1 = (if deactivating then st\<lparr>e_totalDeactivating := e_totalDeactivating st + stake\<rparr>
                     else st\<lparr>e_totalActive := e_totalActive st + stake\<rparr>);
              vs1 = (if k \<in> set (map e_voter (e_validators st1)) then e_validators st1
                     else e_validators st1 @
                       [\<lparr>e_voter = k, e_activeStake = 0, e_deactivatingStake = 0, e_accounts = 0\<rparr>]);
              vs2 = map (\<lambda>v. if e_voter v = k then e_add_account deactivating stake v else v) vs1
          in st1\<lparr>e_validators := vs2\<rparr>)"

definition e_fold_accounts :: "stake_account list \<Rightarrow> etotals" where
  "e_fold_accounts accts = foldl e_fold_account e_init_totals accts"

record enriched =
  en_voter :: string
  en_activeStake :: rat
  en_deactivatingStake :: rat
  en_accounts :: nat
  en_meta :: metadata
  en_pctOfPool :: rat

definition enrich :: "(string \<Rightarrow> metadata) \<Rightarrow> rat \<Rightarrow> evalidator \<Rightarrow> enriched" where
  "enrich meta tot v =
     \<lparr>en_voter = e_voter v, en_activeStake = e_activeStake v,
      en_deactivatingStake = e_deactivatingStake v, en_accounts = e_accounts v,
      en_meta = meta (e_voter v),
      en_pctOfPool = (if 0 < tot then e_activeStake v / tot * 100 else 0)\<rparr>"

record edecentralization =
  ed_nakamotoCoeff33 :: nat
  ed_hhi :: jsnum
  ed_gini :: jsnum
  ed_topValidatorPct :: jsnum
  ed_top10Pct :: jsnum

record eaccount =
  ea_totalAccounts :: nat
  ea_emptyAccounts :: nat
  ea_totalActive :: rat
  ea_totalDeactivating :: rat
  ea_activeValidators :: nat
  ea_decentralization :: edecentralization
  ea_stakeStats :: stake_stats
  ea_stakeBuckets :: "bucket list"
  ea_countries :: "dim_entry list"
  ea_topCities :: "dim_entry list"
  ea_topASNs :: "dim_entry list"
  ea_versions :: "dim_entry list"
  ea_commissionDistribution :: "dim_entry list"
  ea_jitoValidators :: nat
  ea_jitoStake :: rat
  ea_jitoPct :: string
  ea_delinquentCount :: nat
  ea_validators :: "enriched list"

definition enhanced_buckets :: "bucket list" where
  "enhanced_buckets =
     [mk_bucket ''<1K'' 0 (Num 1000),
      mk_bucket ''1K-10K'' 1000 (Num 10000),
      mk_bucket ''10K-50K'' 10000 (Num 50000),
      mk_bucket ''50K-100K'' 50000 (Num 100000),
      mk_bucket ''100K-500K'' 100000 (Num 500000),
      mk_bucket ''500K+'' 500000 PosInf]"

text \<open>
  \<open>topValidatorPct: stakes[0] ? (stakes[0] / totalActive * 100) : 0\<close> and
  \<open>top10Pct: stakes.slice(0, 10).reduce((s, v) => s + v, 0) / totalActive * 100\<close>.
\<close>

definition e_topValidatorPct :: "rat list \<Rightarrow> rat \<Rightarrow> jsnum" where
  "e_topValidatorPct stakes tot =
     (case js_index stakes 0 of
        None \<Rightarrow> Num 0
      | Some s \<Rightarrow> if s \<noteq> 0 then jmul (jdiv (Num s) (Num tot)) (Num 100) else Num 0)"

definition topNPct :: "nat \<Rightarrow> rat list \<Rightarrow> rat \<Rightarrow> jsnum" where
  "topNPct N stakes tot = jmul (jdiv (Num (foldl (+) 0 (take N stakes))) (Num tot)) (Num 100)"

text \<open>
  The body of the loop of \<open>main\<close> over the authorities: the report section of one
  authority, from its stake accounts and the metadata.
\<close>

definition enhanced_account :: "(string \<Rightarrow> metadata) \<Rightarrow> stake_account list \<Rightarrow> eaccount" where
  "enhanced_account meta accts =
     (let st = e_fold_accounts accts;
          tot = e_totalActive st;
          sorted = sort_key (\<lambda>v. - e_activeStake v) (e_validators st);
          activeVals = filter (\<lambda>v. 0 < e_activeStake v) sorted;
          enriched = map (enrich meta tot) sorted;
          stakes = map e_activeStake activeVals;
          tallied = filter (\<lambda>v. \<not> en_activeStake v \<le> 0) enriched;
          countries = tally_by (\<lambda>v. or_unknown (m_country (en_meta v))) en_activeStake tallied;
          cities = tally_by (\<lambda>v. or_unknown (m_city (en_meta v))) en_activeStake tallied;
          asns = tally_by (\<lambda>v. or_unknown (js_or (m_asnOrg (en_meta v)) (m_asn (en_meta v))))
                   en_activeStake tallied;
          versions = tally_by (\<lambda>v. or_unknown (m_version (en_meta v))) en_activeStake tallied;
          commissions = tally_by (\<lambda>v. commission_key (m_commission (en_meta v))) en_activeStake tallied;
          jitoVals = filter (\<lambda>v. m_isJito (en_meta v) \<and> 0 < en_activeStake v) enriched;
          jitoStake = foldl (\<lambda>s v. s + en_activeStake v) 0 jitoVals
      in \<lparr>ea_totalAccounts = length accts,
          ea_emptyAccounts = e_totalEmpty st,
          ea_totalActive = tot,
          ea_totalDeactivating = e_totalDeactivating st,
          ea_activeValidators = length activeVals,
          ea_decentralization =
            \<lparr>ed_nakamotoCoeff33 = nakamoto33 stakes tot,
             ed_hhi = hhi stakes tot,
             ed_gini = gini stakes,
             ed_topValidatorPct = e_topValidatorPct stakes tot,
             ed_top10Pct = topNPct 10 stakes tot\<rparr>,
          ea_stakeStats = stakeStats tot stakes,
          ea_stakeBuckets = fill_buckets enhanced_buckets stakes,
          ea_countries = sortObj tot countries,
          ea_topCities = take 20 (sortObj tot cities),
          ea_topASNs = take 20 (sortObj tot asns),
          ea_versions = sortObj tot versions,
          ea_commissionDistribution = sortObj tot commissions,
          ea_jitoValidators = length jitoVals,
          ea_jitoStake = jitoStake,
          ea_jitoPct = toFixed 2 (jmul (jdiv (Num jitoStake) (Num tot)) (Num 100)),
          ea_delinquentCount =
            length (filter (\<lambda>v. m_delinquent (en_meta v) \<and> 0 < en_activeStake v) enriched),
          ea_validators = enriched\<rparr>)"

subsection \<open>The combined section of collect-enhanced.js\<close>
















section \<open>collect-network.js\<close>

text \<open>
  A vote account of \<open>getVoteAccounts\<close>: \<open>activatedStake\<close> is a number of lamports.
  The validator list is built from the current vote accounts followed by the delinquent
  ones; \<open>delinquent.includes(v)\<close> holds of the latter.
\<close>

record vote_account =
  va_votePubkey :: string
  va_activatedStake :: nat
  va_commission :: "nat option"

record nvalidator =
  n_voter :: string
  n_stake :: rat
  n_commission :: "nat option"
  n_delinquent :: bool
  n_meta :: metadata

definition nvalidator_of :: "(string \<Rightarrow> metadata) \<Rightarrow> bool \<Rightarrow> vote_account \<Rightarrow> nvalidator" where
  "nvalidator_of meta is_delinquent v =
     \<lparr>n_voter = va_votePubkey v, n_stake = rat_of_nat (va_activatedStake v) / 10 ^ 9,
      n_commission = va_commission v, n_delinquent = is_delinquent, n_meta = meta (va_votePubkey v)\<rparr>"

definition COUNTRY_CONTINENT :: "(string \<times> string) list" where
  "COUNTRY_CONTINENT =
     [(''United States'', ''North America''), (''Canada'', ''North America''), (''Mexico'', ''North America''),
      (''Brazil'', ''South America''), (''Argentina'', ''South America''), (''Chile'', ''South America''),
      (''Colombia'', ''South America''), (''Peru'', ''South America''),
      (''Germany'', ''Europe''), (''Netherlands'', ''Europe''), (''France'', ''Europe''),
      (''United Kingdom'', ''Europe''), (''Ireland'', ''Europe''),
      (''Sweden'', ''Europe''), (''Norway'', ''Europe''), (''Poland'', ''Europe''), (''Ukraine'', ''Europe''),
      (''Romania'', ''Europe''), (''Spain'', ''Europe''),
      (''Austria'', ''Europe''), (''Bulgaria'', ''Europe''), (''Czech Republic'', ''Europe''),
      (''Estonia'', ''Europe''), (''Latvia'', ''Europe''),
      (''Luxembourg'', ''Europe''), (''Russia'', ''Europe''), (''Republic of Lithuania'', ''Europe''),
      (''Slovak Republic'', ''Europe''),
      (''Finland'', ''Europe''), (''Denmark'', ''Europe''), (''Belgium'', ''Europe''), (''Portugal'', ''Europe''),
      (''Italy'', ''Europe''),
      (''Switzerland'', ''Europe''), (''Lithuania'', ''Europe''), (''Turkey'', ''Europe''),
      (''Japan'', ''Asia''), (''Singapore'', ''Asia''), (''Hong Kong'', ''Asia''), (''South Korea'', ''Asia''),
      (''India'', ''Asia''),
      (''Thailand'', ''Asia''), (''Indonesia'', ''Asia''), (''Taiwan'', ''Asia''), (''Philippines'', ''Asia''),
      (''Vietnam'', ''Asia''), (''Israel'', ''Asia''),
      (''South Africa'', ''Africa''), (''Australia'', ''Oceania''), (''New Zealand'', ''Oceania'')]"

definition continent_of :: "string option \<Rightarrow> string" where
  "continent_of country =
     (case country of
        None \<Rightarrow> ''Other''
      | Some c \<Rightarrow> (case map_of COUNTRY_CONTINENT c of None \<Rightarrow> ''Other'' | Some k \<Rightarrow> k))"

definition network_buckets :: "bucket list" where
  "network_buckets =
     [mk_bucket ''<10K'' 0 (Num 10000),
      mk_bucket ''10K-50K'' 10000 (Num 50000),
      mk_bucket ''50K-100K'' 50000 (Num 100000),
      mk_bucket ''100K-500K'' 100000 (Num 500000),
      mk_bucket ''500K-1M'' 500000 (Num 1000000),
      mk_bucket ''1M-5M'' 1000000 (Num 5000000),
      mk_bucket ''5M+'' 5000000 PosInf]"

text \<open>
  \<^verbatim>\<open>for (const v of allVals) {
    running += v.stake; superminorityVals.push(v.voter);
    if (running >= totalStake * 0.33) break; }\<close>
\<close>

fun superminorityVals :: "rat \<Rightarrow> rat \<Rightarrow> nvalidator list \<Rightarrow> string list" where
  "superminorityVals thr running [] = []"
| "superminorityVals thr running (v # vs) =
     n_voter v # (if thr \<le> running + n_stake v then []
                  else superminorityVals thr (running + n_stake v) vs)"

record ndecentralization =
  nd_nakamotoCoeff33 :: nat
  nd_superminorityCount :: nat
  nd_hhi :: jsnum
  nd_gini :: jsnum
  nd_topValidatorPct :: jsnum
  nd_top10Pct :: jsnum
  nd_top20Pct :: jsnum
  nd_top50Pct :: jsnum

text \<open>
  The stake statistics of the network report read \<open>stakes[i]\<close> with no default (only
  the median has \<open>|| 0\<close>): outside the array the value is \<open>undefined\<close>, here
  \<open>None\<close>; \<open>undefined / totalStake\<close> is \<open>NaN\<close>.
\<close>

record nstake_stats =
  ns_mean :: jsnum
  ns_median :: rat
  ns_max :: "rat option"
  ns_min :: "rat option"
  ns_p10 :: "rat option"
  ns_p90 :: "rat option"

definition n_topValidatorPct :: "rat list \<Rightarrow> rat \<Rightarrow> jsnum" where
  "n_topValidatorPct stakes tot =
     (case js_index stakes 0 of
        None \<Rightarrow> NaN
      | Some s \<Rightarrow> jmul (jdiv (Num s) (Num tot)) (Num 100))"

record nlisted =
  nl_validator :: nvalidator
  nl_pctOfTotal :: string
  nl_isSuperminority :: bool

record nreport =
  nr_totalStake :: rat
  nr_totalValidators :: nat
  nr_currentValidators :: nat
  nr_delinquentValidators :: nat
  nr_decentralization :: ndecentralization
  nr_stakeStats :: nstake_stats
  nr_stakeBuckets :: "bucket list"
  nr_countries :: "dim_entry list"
  nr_continents :: "dim_entry list"
  nr_topCities :: "dim_entry list"
  nr_topASNs :: "dim_entry list"
  nr_top3ASNPct :: string
  nr_uniqueASNs :: nat
  nr_uniqueCountries :: nat
  nr_uniqueCities :: nat
  nr_versions :: "dim_entry list"
  nr_commissionDistribution :: "dim_entry list"
  nr_jitoValidators :: nat
  nr_jitoStake :: rat
  nr_jitoPct :: string
  nr_superminorityVoters :: "string list"
  nr_validators :: "nlisted list"

definition network_allVals :: "(string \<Rightarrow> metadata) \<Rightarrow> vote_account list \<Rightarrow> vote_account list \<Rightarrow> nvalidator list" where
  "network_allVals meta current delinquent =
     sort_key (\<lambda>v. - n_stake v)
       (map (nvalidator_of meta False) current @ map (nvalidator_of meta True) delinquent)"

definition network_totalStake :: "vote_account list \<Rightarrow> vote_account list \<Rightarrow> rat" where
  "network_totalStake current delinquent =
     foldl (\<lambda>t v. t + rat_of_nat (va_activatedStake v) / 10 ^ 9) 0 (current @ delinquent)"

definition network_main :: "(string \<Rightarrow> metadata) \<Rightarrow> vote_account list \<Rightarrow> vote_account list \<Rightarrow> nreport" where
  "network_main meta current delinquent =
     (let allVals = network_allVals meta current delinquent;
          tot = network_totalStake current delinquent;
          stakes = map n_stake allVals;
          n = length stakes;
          countries = tally_by (\<lambda>v. or_unknown (m_country (n_meta v))) n_stake allVals;
          cities = tally_by (\<lambda>v. or_unknown (m_city (n_meta v))) n_stake allVals;
          asns = tally_by (\<lambda>v. or_unknown (js_or (m_asnOrg (n_meta v)) (m_asn (n_meta v)))) n_stake allVals;
          versions = tally_by (\<lambda>v. or_unknown (m_version (n_meta v))) n_stake allVals;
          commissions = tally_by (\<lambda>v. commission_key (n_commission v)) n_stake allVals;
          continents = tally_by (\<lambda>v. continent_of (m_country (n_meta v))) n_stake allVals;
          jitoVals = filter (\<lambda>v. m_isJito (n_meta v)) allVals;
          jitoStake = foldl (\<lambda>s v. s + n_stake v) 0 jitoVals;
          superminorityVoters = superminorityVals (tot * (33 / 100)) 0 allVals;
          asnSorted = sortObj tot asns;
          top3ASNStake = foldl (\<lambda>s a. s + dim_stake a) 0 (take 3 asnSorted)
      in \<lparr>nr_totalStake = tot,
          nr_totalValidators = length allVals,
          nr_currentValidators = length current,
          nr_delinquentValidators = length delinquent,
          nr_decentralization =
            \<lparr>nd_nakamotoCoeff33 = nakamoto33 stakes tot,
             nd_superminorityCount = superminority stakes tot,
             nd_hhi = hhi stakes tot,
             nd_gini = gini stakes,
             nd_topValidatorPct = n_topValidatorPct stakes tot,
             nd_top10Pct = topNPct 10 stakes tot,
             nd_top20Pct = topNPct 20 stakes tot,
             nd_top50Pct = topNPct 50 stakes tot\<rparr>,
          nr_stakeStats =
            \<lparr>ns_mean = jdiv (Num tot) (Num (rat_of_nat (length allVals))),
             ns_median = or0 (js_index stakes (int (length stakes div 2))),
             ns_max = js_index stakes 0,
             ns_min = js_index stakes (int (length stakes) - 1),
             ns_p10 = js_index stakes \<lfloor>rat_of_nat n * (1 / 10)\<rfloor>,
             ns_p90 = js_index stakes \<lfloor>rat_of_nat n * (9 / 10)\<rfloor>\<rparr>,
          nr_stakeBuckets = fill_buckets network_buckets stakes,
          nr_countries = take 30 (sortObj tot countries),
          nr_continents = sortObj tot continents,
          nr_topCities = take 30 (sortObj tot cities),
          nr_topASNs = take 30 asnSorted,
          nr_top3ASNPct = toFixed 1 (jmul (jdiv (Num top3ASNStake) (Num tot)) (Num 100)),
          nr_uniqueASNs = length asns,
          nr_uniqueCountries = length countries,
          nr_uniqueCities = length cities,
          nr_versions = sortObj tot versions,
          nr_commissionDistribution = sortObj tot commissions,
          nr_jitoValidators = length jitoVals,
          nr_jitoStake = jitoStake,
          nr_jitoPct = toFixed 2 (jmul (jdiv (Num jitoStake) (Num tot)) (Num 100)),
          nr_superminorityVoters = superminorityVoters,
          nr_validators =
            map (\<lambda>v. \<lparr>nl_validator = v,
                       nl_pctOfTotal = toFixed 4 (jmul (jdiv (Num (n_stake v)) (Num tot)) (Num 100)),
                       nl_isSuperminority = (n_voter v \<in> set superminorityVoters)\<rparr>) allVals\<rparr>)"

section \<open>Sums of JavaScript numbers\<close>

text \<open>
  \<open>+\<close> on \<open>jsnum\<close> is \<open>jadd\<close>. With \<open>NaN\<close> absorbing and the infinities as above
  it is associative and commutative, with \<open>Num 0\<close> as unit, so the sums of the library
  apply to it.
\<close>

instantiation jsnum :: comm_monoid_add
begin

definition zero_jsnum :: jsnum where
  "zero_jsnum = Num 0"

definition plus_jsnum :: "jsnum \<Rightarrow> jsnum \<Rightarrow> jsnum" where
  "plus_jsnum = jadd"

instance
proof
  fix a b c :: jsnum
  show "a + b + c = a + (b + c)"
    unfolding plus_jsnum_def by (cases a; cases b; cases c) simp_all
  show "a + b = b + a"
    unfolding plus_jsnum_def by (cases a; cases b) simp_all
  show "0 + a = a"
    unfolding plus_jsnum_def zero_jsnum_def by (cases a) simp_all
qed

end


section \<open>The Gini coefficient as the specification writes it\<close>


text \<open>A vote account with no activated stake, for the examples.\<close>

definition idle_vote_account :: vote_account where
  "idle_vote_account = \<lparr>va_votePubkey = ''V'', va_activatedStake = 0, va_commission = Some 0\<rparr>"

section \<open>Invariants of the fold\<close>

text \<open>
  What holds of the locals of the loop of \<open>analyzeStakeAccounts\<close> after every
  iteration: the keys of \<open>validators\<close> are distinct, every aggregate has
  \<open>totalStake = activeStake + deactivatingStake\<close> and as many activation epochs as
  stake accounts, and the two running totals are the sums over the aggregates.
\<close>

definition aggregate_ok :: "validator \<Rightarrow> bool" where
  "aggregate_ok v = (totalStake v = activeStake v + deactivatingStake v
                     \<and> stakeAccounts v = length (activationEpochs v))"

definition fold_invariant :: "totals \<Rightarrow> bool" where
  "fold_invariant st =
     (distinct (map voter (validators st))
      \<and> list_all aggregate_ok (validators st)
      \<and> totalActive st = sum_list (map activeStake (validators st))
      \<and> totalDeactivating st = sum_list (map deactivatingStake (validators st)))"


section \<open>The aggregates as sums over the stake accounts\<close>

text \<open>
  What the aggregate of a voter is in terms of the stake accounts alone, whatever their
  order: the sums of the stakes of its delegations that are not, and that are,
  deactivating, and the number of its delegations. The fold is compared with this below.
\<close>

definition stake_sol :: "delegation \<Rightarrow> rat" where
  "stake_sol d = rat_of_nat (del_stake d) / 10 ^ 9"

definition is_deactivating :: "delegation \<Rightarrow> bool" where
  "is_deactivating d = (del_deactivationEpoch d \<noteq> not_deactivating)"

definition active_of :: "string \<Rightarrow> stake_account list \<Rightarrow> rat" where
  "active_of k accts =
     sum_list (map (\<lambda>a. case a of None \<Rightarrow> 0
                        | Some d \<Rightarrow> if del_voter d = k \<and> \<not> is_deactivating d then stake_sol d else 0) accts)"

definition deactivating_of :: "string \<Rightarrow> stake_account list \<Rightarrow> rat" where
  "deactivating_of k accts =
     sum_list (map (\<lambda>a. case a of None \<Rightarrow> 0
                        | Some d \<Rightarrow> if del_voter d = k \<and> is_deactivating d then stake_sol d else 0) accts)"

definition accounts_of :: "string \<Rightarrow> stake_account list \<Rightarrow> nat" where
  "accounts_of k accts =
     length (filter (\<lambda>a. case a of None \<Rightarrow> False | Some d \<Rightarrow> del_voter d = k) accts)"

definition voters_of :: "stake_account list \<Rightarrow> string set" where
  "voters_of accts = del_voter ` Option.these (set accts)"

definition aggregate_of :: "string \<Rightarrow> stake_account list \<Rightarrow> listed_validator" where
  "aggregate_of k accts =
     \<lparr>l_voter = k, l_activeStake = active_of k accts,
      l_deactivatingStake = deactivating_of k accts, l_stakeAccounts = accounts_of k accts\<rparr>"

text \<open>
  The aggregates of collect-enhanced.js carry the same four fields under other names, and
  its fold differs from the fold of collect.js in the fields it leaves out.
\<close>

definition e_of_listed :: "listed_validator \<Rightarrow> evalidator" where
  "e_of_listed v = \<lparr>e_voter = l_voter v, e_activeStake = l_activeStake v,
     e_deactivatingStake = l_deactivatingStake v, e_accounts = l_stakeAccounts v\<rparr>"

definition e_of_totals :: "totals \<Rightarrow> etotals" where
  "e_of_totals st = \<lparr>e_totalActive = totalActive st, e_totalDeactivating = totalDeactivating st,
     e_totalEmpty = totalEmpty st, e_validators = map (e_of_listed \<circ> list_validator) (validators st)\<rparr>"

definition summarised :: "totals \<Rightarrow> stake_account list \<Rightarrow> bool" where
  "summarised st accts =
     (set (map voter (validators st)) = voters_of accts
      \<and> (\<forall>v\<in>set (validators st). list_validator v = aggregate_of (voter v) accts)
      \<and> totalEmpty st = length (filter (\<lambda>a. a = None) accts))"

section \<open>Percentages\<close>


text \<open>A vote account with one SOL of activated stake, for the examples.\<close>

definition staked_vote_account :: vote_account where
  "staked_vote_account = \<lparr>va_votePubkey = ''W'', va_activatedStake = 1000000000, va_commission = Some 5\<rparr>"

section \<open>The merged validators\<close>







section \<open>Properties of the metric loops\<close>

subsection \<open>The Nakamoto coefficient\<close>

lemma sum_list_pos_rat:
  assumes "stakes \<noteq> []" and "\<forall>s\<in>set stakes. (0::rat) < s"
  shows "0 < sum_list stakes"
proof -
  from assms(1) obtain a list where st: "stakes = a # list" by (cases stakes) auto
  from assms(2) st have "0 \<le> sum_list list" by (intro sum_list_nonneg) (simp add: less_imp_le)
  moreover from assms(2) st have "0 < a" by simp
  ultimately show ?thesis using st by simp
qed

text \<open>
  The loop, entered below the threshold over a list whose sum reaches it, leaves at the
  first prefix that reaches the threshold.
\<close>

lemma prefix_count_first:
  assumes "r < thr" and "thr \<le> r + sum_list ss"
  shows "\<exists>j. prefix_count thr r k ss = k + j \<and> 1 \<le> j \<and> j \<le> length ss
            \<and> thr \<le> r + sum_list (take j ss)
            \<and> (\<forall>i<j. r + sum_list (take i ss) < thr)"
  using assms
proof (induction ss arbitrary: r k)
  case Nil
  then show ?case by simp
next
  case (Cons s ss)
  show ?case
  proof (cases "thr \<le> r + s")
    case True
    with Cons.prems have "prefix_count thr r k (s # ss) = k + 1 \<and> (1::nat) \<le> 1 \<and> 1 \<le> length (s # ss)
        \<and> thr \<le> r + sum_list (take 1 (s # ss)) \<and> (\<forall>i<1. r + sum_list (take i (s # ss)) < thr)"
      by simp
    then show ?thesis by blast
  next
    case False
    then have lt: "r + s < thr" by simp
    from Cons.prems have "thr \<le> (r + s) + sum_list ss" by (simp add: add.assoc)
    from Cons.IH [OF lt this, of "k + 1"] obtain j where
      j: "prefix_count thr (r + s) (k + 1) ss = k + 1 + j" "1 \<le> j" "j \<le> length ss"
         "thr \<le> r + s + sum_list (take j ss)"
         "\<forall>i<j. r + s + sum_list (take i ss) < thr"
      by blast
    have "\<forall>i<Suc j. r + sum_list (take i (s # ss)) < thr"
    proof (intro allI impI)
      fix i assume "i < Suc j"
      show "r + sum_list (take i (s # ss)) < thr"
      proof (cases i)
        case 0
        with Cons.prems show ?thesis by simp
      next
        case (Suc i')
        with \<open>i < Suc j\<close> j(5) show ?thesis by (simp add: add.assoc)
      qed
    qed
    with False j have "prefix_count thr r k (s # ss) = k + Suc j \<and> 1 \<le> Suc j \<and> Suc j \<le> length (s # ss)
        \<and> thr \<le> r + sum_list (take (Suc j) (s # ss))
        \<and> (\<forall>i<Suc j. r + sum_list (take i (s # ss)) < thr)"
      by (simp add: add.assoc)
    then show ?thesis by blast
  qed
qed



subsection \<open>The empty snapshot\<close>

text \<open>
  With no stake account every loop is skipped and \<open>totalActive\<close> is 0. The guarded
  computations give 0.
\<close>

lemma empty_delegations_zero:
  "a_activeValidators (analyzeStakeAccounts []) = 0
   \<and> a_decentralization (analyzeStakeAccounts []) =
       \<lparr>d_nakamotoCoeff33 = 0, d_superminorityCount = 0, d_hhi = Num 0, d_gini = Num 0\<rparr>
   \<and> s_median (a_stakeStats (analyzeStakeAccounts [])) = 0
   \<and> s_max (a_stakeStats (analyzeStakeAccounts [])) = 0
   \<and> s_min (a_stakeStats (analyzeStakeAccounts [])) = 0
   \<and> s_p10 (a_stakeStats (analyzeStakeAccounts [])) = 0
   \<and> s_p90 (a_stakeStats (analyzeStakeAccounts [])) = 0
   \<and> ed_topValidatorPct (ea_decentralization (enhanced_account meta [])) = Num 0"
  by (simp add: analyzeStakeAccounts_def fold_accounts_def init_totals_def sortedValidators_def
      stakeStats_def enhanced_account_def e_fold_accounts_def e_init_totals_def topNPct_def Let_def
      nakamoto33_def superminority_def hhi_def gini_def js_index_def or0_def e_topValidatorPct_def)

text \<open>
  C2. For the empty delegation list the claim has every metric return 0 or null. The
  unguarded divisions do not: the mean stake is \<open>0 / 0\<close>, which is \<open>NaN\<close>, in
  \<open>analyzeStakeAccounts\<close> and in collect-enhanced.js; there \<open>top10Pct\<close> is
  \<open>0 / 0 * 100 = NaN\<close> as well, and the Jito percentage is the string \<open>"NaN"\<close>.
  Nothing is raised.
\<close>

theorem empty_delegations_mean_nan:
  "s_mean (a_stakeStats (analyzeStakeAccounts [])) = NaN
   \<and> s_mean (ea_stakeStats (enhanced_account meta [])) = NaN
   \<and> ed_top10Pct (ea_decentralization (enhanced_account meta [])) = NaN
   \<and> ea_jitoPct (enhanced_account meta []) = ''NaN''"
  by (simp add: analyzeStakeAccounts_def fold_accounts_def init_totals_def sortedValidators_def
      stakeStats_def enhanced_account_def e_fold_accounts_def e_init_totals_def topNPct_def Let_def)

text \<open>The network collector, with no vote account: the mean and \<open>topValidatorPct\<close> are \<open>NaN\<close>.\<close>

lemma network_empty:
  "ns_mean (nr_stakeStats (network_main meta [] [])) = NaN
   \<and> nd_topValidatorPct (nr_decentralization (network_main meta [] [])) = NaN"
  by (simp add: network_main_def network_allVals_def network_totalStake_def n_topValidatorPct_def
      js_index_def Let_def)

subsection \<open>The Herfindahl-Hirschman index\<close>








subsection \<open>The Gini coefficient\<close>









subsection \<open>The stake buckets\<close>

text \<open>
  One stake changes one bucket, the first in the order of the table whose range holds
  it, and no bucket when no range holds it.
\<close>

lemma add_to_bucket_first_match:
  "add_to_bucket s bs =
     (if \<exists>b\<in>set bs. in_bucket s b
      then takeWhile (\<lambda>b. \<not> in_bucket s b) bs
           @ bump s (hd (dropWhile (\<lambda>b. \<not> in_bucket s b) bs))
           # tl (dropWhile (\<lambda>b. \<not> in_bucket s b) bs)
      else bs)"
  by (induction bs) auto

lemma add_to_bucket_count:
  "sum_list (map b_count (add_to_bucket s bs))
     = sum_list (map b_count bs) + (if \<exists>b\<in>set bs. in_bucket s b then 1 else 0)"
  by (induction bs) (auto simp: bump_def)

lemma add_to_bucket_ranges:
  "map (\<lambda>b. (b_min b, b_max b)) (add_to_bucket s bs) = map (\<lambda>b. (b_min b, b_max b)) bs"
  by (induction bs) (simp_all add: bump_def)

lemma covered_ranges:
  "(\<exists>b\<in>set bs. in_bucket s b) \<longleftrightarrow> (\<exists>r\<in>set (map (\<lambda>b. (b_min b, b_max b)) bs). fst r \<le> s \<and> jless (Num s) (snd r))"
  by (auto simp: in_bucket_def)

lemma add_to_bucket_covered:
  "(\<exists>b\<in>set (add_to_bucket s' bs). in_bucket s b) \<longleftrightarrow> (\<exists>b\<in>set bs. in_bucket s b)"
  unfolding covered_ranges add_to_bucket_ranges ..

lemma fill_buckets_count:
  assumes "\<forall>s\<in>set ss. \<exists>b\<in>set bs. in_bucket s b"
  shows "sum_list (map b_count (fill_buckets bs ss)) = sum_list (map b_count bs) + length ss"
  using assms unfolding fill_buckets_def
proof (induction ss arbitrary: bs)
  case Nil
  then show ?case by simp
next
  case (Cons s ss)
  from Cons.prems have "\<forall>x\<in>set ss. \<exists>b\<in>set (add_to_bucket s bs). in_bucket x b"
    by (simp add: add_to_bucket_covered)
  from Cons.IH [OF this] Cons.prems show ?case
    by (simp add: add_to_bucket_count)
qed

lemma collect_buckets_one:
  assumes "0 \<le> s"
  shows "length (filter (in_bucket s) collect_buckets) = 1"
  using assms by (simp add: collect_buckets_def mk_bucket_def in_bucket_def)

lemma enhanced_buckets_one:
  assumes "0 \<le> s"
  shows "length (filter (in_bucket s) enhanced_buckets) = 1"
  using assms by (simp add: enhanced_buckets_def mk_bucket_def in_bucket_def)

lemma network_buckets_one:
  assumes "0 \<le> s"
  shows "length (filter (in_bucket s) network_buckets) = 1"
  using assms by (simp add: network_buckets_def mk_bucket_def in_bucket_def)

lemma one_match_covered:
  assumes "length (filter (in_bucket s) bs) = 1"
  shows "\<exists>b\<in>set bs. in_bucket s b"
proof -
  from assms have "filter (in_bucket s) bs \<noteq> []" by auto
  then obtain b where "b \<in> set (filter (in_bucket s) bs)" by (cases "filter (in_bucket s) bs") auto
  then show ?thesis by auto
qed

lemma counts0:
  "sum_list (map b_count collect_buckets) = 0" "sum_list (map b_count enhanced_buckets) = 0"
  "sum_list (map b_count network_buckets) = 0"
  by (simp_all add: collect_buckets_def enhanced_buckets_def network_buckets_def mk_bucket_def)

lemma n_stake_nonneg: "v \<in> set (network_allVals meta current delinquent) \<Longrightarrow> 0 \<le> n_stake v"
  by (auto simp: network_allVals_def nvalidator_of_def)

text \<open>
  C9, amended. The bucket counts sum to the number of validators that were bucketed:
  in \<open>analyzeStakeAccounts\<close> and in collect-enhanced.js these are the validators with
  \<open>activeStake > 0\<close>; in collect-network.js they are all validators, those without
  stake included. Every non-negative stake is in the range of exactly one bucket of each
  of the three tables.
\<close>

theorem bucket_counts:
  "sum_list (map b_count (a_stakeBuckets (analyzeStakeAccounts accts)))
     = a_activeValidators (analyzeStakeAccounts accts)
   \<and> sum_list (map b_count (ea_stakeBuckets (enhanced_account meta accts)))
     = ea_activeValidators (enhanced_account meta accts)
   \<and> sum_list (map b_count (nr_stakeBuckets (network_main meta current delinquent)))
     = nr_totalValidators (network_main meta current delinquent)
   \<and> (0 \<le> s \<longrightarrow> length (filter (in_bucket s) collect_buckets) = 1
                \<and> length (filter (in_bucket s) enhanced_buckets) = 1
                \<and> length (filter (in_bucket s) network_buckets) = 1)"
proof (intro conjI impI)
  let ?A = "map activeStake (filter (\<lambda>v. 0 < activeStake v) (sortedValidators (validators (fold_accounts accts))))"
  have "\<forall>s\<in>set ?A. \<exists>b\<in>set collect_buckets. in_bucket s b"
    by (auto intro!: one_match_covered collect_buckets_one)
  from fill_buckets_count [OF this]
  show "sum_list (map b_count (a_stakeBuckets (analyzeStakeAccounts accts)))
     = a_activeValidators (analyzeStakeAccounts accts)"
    by (simp add: analyzeStakeAccounts_def Let_def counts0)
next
  let ?A = "map e_activeStake (filter (\<lambda>v. 0 < e_activeStake v)
              (sort_key (\<lambda>v. - e_activeStake v) (e_validators (e_fold_accounts accts))))"
  have "\<forall>s\<in>set ?A. \<exists>b\<in>set enhanced_buckets. in_bucket s b"
    by (auto intro!: one_match_covered enhanced_buckets_one)
  from fill_buckets_count [OF this]
  show "sum_list (map b_count (ea_stakeBuckets (enhanced_account meta accts)))
     = ea_activeValidators (enhanced_account meta accts)"
    by (simp add: enhanced_account_def Let_def counts0)
next
  let ?A = "map n_stake (network_allVals meta current delinquent)"
  have "\<forall>s\<in>set ?A. \<exists>b\<in>set network_buckets. in_bucket s b"
    by (auto intro!: one_match_covered network_buckets_one n_stake_nonneg)
  from fill_buckets_count [OF this]
  show "sum_list (map b_count (nr_stakeBuckets (network_main meta current delinquent)))
     = nr_totalValidators (network_main meta current delinquent)"
    by (simp add: network_main_def Let_def counts0)
qed (simp_all add: collect_buckets_one enhanced_buckets_one network_buckets_one)

lemma network_idle_allVals:
  "network_allVals unknown_metadata [idle_vote_account] []
     = [nvalidator_of unknown_metadata False idle_vote_account]"
  by (simp add: network_allVals_def)

lemma idle_stake: "n_stake (nvalidator_of meta d idle_vote_account) = 0"
  by (simp add: nvalidator_of_def idle_vote_account_def)

lemma nr_stakeBuckets_eq:
  "nr_stakeBuckets (network_main meta current delinquent)
     = fill_buckets network_buckets (map n_stake (network_allVals meta current delinquent))"
  by (simp add: network_main_def Let_def)

lemma nr_validators_eq:
  "map nl_validator (nr_validators (network_main meta current delinquent))
     = network_allVals meta current delinquent"
  by (simp add: network_main_def Let_def comp_def)

text \<open>
  C9, as the claim states it, fails in collect-network.js: with one current vote account
  without activated stake the bucket counts sum to 1 (the validator is in the first bucket, whose
  range starts at 0), and no validator has a stake above 0.
\<close>

theorem network_buckets_count_counterexample:
  "sum_list (map b_count (nr_stakeBuckets (network_main unknown_metadata [idle_vote_account] []))) = 1
   \<and> length (filter (\<lambda>v. 0 < n_stake v)
        (map nl_validator (nr_validators (network_main unknown_metadata [idle_vote_account] [])))) = 0"
  by (simp add: nr_stakeBuckets_eq nr_validators_eq network_idle_allVals idle_stake fill_buckets_def
      network_buckets_def mk_bucket_def in_bucket_def bump_def)

theorem bucket_counts_witness:
  "sum_list (map b_count (nr_stakeBuckets (network_main unknown_metadata [idle_vote_account] [])))
     = nr_totalValidators (network_main unknown_metadata [idle_vote_account] [])
   \<and> length (filter (in_bucket 1500) collect_buckets) = 1
   \<and> map b_label (filter (in_bucket 1500) collect_buckets) = [''1K-10K'']"
proof -
  have "map b_label (filter (in_bucket 1500) collect_buckets) = [''1K-10K'']"
    by (simp add: collect_buckets_def mk_bucket_def in_bucket_def)
  with bucket_counts [of "[]" unknown_metadata "[idle_vote_account]" "[]" 1500]
  show ?thesis by simp
qed

section \<open>Properties of the fold over the stake accounts\<close>

lemma add_account_voter [simp]: "voter (add_account d s e v) = voter v"
  by (simp add: add_account_def Let_def)

lemma add_account_ok: "aggregate_ok v \<Longrightarrow> aggregate_ok (add_account d s e v)"
  by (simp add: add_account_def aggregate_ok_def Let_def)

lemma new_validator_ok: "aggregate_ok (new_validator k)"
  by (simp add: new_validator_def aggregate_ok_def)

text \<open>Changing the one entry of a key changes a sum over the entries by the change of that entry.\<close>

lemma sum_list_update_key:
  fixes f :: "'a \<Rightarrow> rat"
  assumes "distinct (map key vs)" and "k \<in> set (map key vs)"
    and "\<And>v. key v = k \<Longrightarrow> f (g v) = f v + d"
  shows "sum_list (map f (map (\<lambda>v. if key v = k then g v else v) vs)) = sum_list (map f vs) + d"
  using assms(1,2)
proof (induction vs)
  case Nil
  then show ?case by simp
next
  case (Cons a vs)
  show ?case
  proof (cases "key a = k")
    case True
    with Cons.prems have "k \<notin> set (map key vs)" by auto
    then have "map (\<lambda>v. if key v = k then g v else v) vs = vs"
      by (intro map_idI) auto
    with True assms(3) show ?thesis by simp
  next
    case False
    with Cons show ?thesis by simp
  qed
qed

lemma fold_account_validators:
  "validators (fold_account st (Some del)) =
     map (\<lambda>v. if voter v = del_voter del
               then add_account (del_deactivationEpoch del \<noteq> not_deactivating)
                      (rat_of_nat (del_stake del) / 10 ^ 9) (del_activationEpoch del) v
               else v)
       (if del_voter del \<in> set (map voter (validators st)) then validators st
        else validators st @ [new_validator (del_voter del)])"
  by (simp add: fold_account_def Let_def)

lemma fold_account_totals:
  "totalActive (fold_account st (Some del)) =
     totalActive st + (if del_deactivationEpoch del \<noteq> not_deactivating then 0
                       else rat_of_nat (del_stake del) / 10 ^ 9)"
  "totalDeactivating (fold_account st (Some del)) =
     totalDeactivating st + (if del_deactivationEpoch del \<noteq> not_deactivating
                             then rat_of_nat (del_stake del) / 10 ^ 9 else 0)"
  "totalEmpty (fold_account st (Some del)) = totalEmpty st"
  by (simp_all add: fold_account_def Let_def)

lemma fold_account_invariant:
  assumes "fold_invariant st"
  shows "fold_invariant (fold_account st acct)"
proof (cases acct)
  case None
  with assms show ?thesis by (simp add: fold_account_def fold_invariant_def)
next
  case (Some del)
  define k where "k = del_voter del"
  define dea where "dea = (del_deactivationEpoch del \<noteq> not_deactivating)"
  define stake where "stake = rat_of_nat (del_stake del) / 10 ^ 9"
  define vs1 where "vs1 = (if k \<in> set (map voter (validators st)) then validators st
                           else validators st @ [new_validator k])"
  define g where "g = add_account dea stake (del_activationEpoch del)"
  have vs: "validators (fold_account st acct) = map (\<lambda>v. if voter v = k then g v else v) vs1"
    unfolding Some fold_account_validators k_def dea_def stake_def vs1_def g_def ..
  have voters: "map voter (map (\<lambda>v. if voter v = k then g v else v) vs1) = map voter vs1"
    by (simp add: g_def)
  have vk: "voter (new_validator k) = k" by (simp add: new_validator_def)
  from assms have d1: "distinct (map voter vs1)" and k1: "k \<in> set (map voter vs1)"
    by (auto simp: vs1_def fold_invariant_def vk)
  from assms have ok1: "list_all aggregate_ok vs1"
    by (simp add: vs1_def fold_invariant_def new_validator_ok)
  then have ok: "list_all aggregate_ok (map (\<lambda>v. if voter v = k then g v else v) vs1)"
    by (auto simp: list_all_iff g_def add_account_ok)
  have a1: "sum_list (map activeStake vs1) = totalActive st"
    and e1: "sum_list (map deactivatingStake vs1) = totalDeactivating st"
    using assms by (simp_all add: vs1_def fold_invariant_def new_validator_def)
  have "sum_list (map activeStake (map (\<lambda>v. if voter v = k then g v else v) vs1))
          = sum_list (map activeStake vs1) + (if dea then 0 else stake)"
    by (rule sum_list_update_key [OF d1 k1]) (simp add: g_def add_account_def Let_def)
  moreover have "sum_list (map deactivatingStake (map (\<lambda>v. if voter v = k then g v else v) vs1))
          = sum_list (map deactivatingStake vs1) + (if dea then stake else 0)"
    by (rule sum_list_update_key [OF d1 k1]) (simp add: g_def add_account_def Let_def)
  moreover have "totalActive (fold_account st acct) = totalActive st + (if dea then 0 else stake)"
    "totalDeactivating (fold_account st acct) = totalDeactivating st + (if dea then stake else 0)"
    unfolding Some fold_account_totals dea_def stake_def by simp_all
  ultimately show ?thesis
    unfolding fold_invariant_def vs voters using d1 ok a1 e1 by simp
qed

lemma fold_accounts_snoc: "fold_accounts (accts @ [a]) = fold_account (fold_accounts accts) a"
  by (simp add: fold_accounts_def)

lemma fold_accounts_invariant: "fold_invariant (fold_accounts accts)"
proof (induction accts rule: rev_induct)
  case Nil
  show ?case by (simp add: fold_accounts_def init_totals_def fold_invariant_def)
next
  case (snoc a accts)
  then show ?case by (simp add: fold_accounts_snoc fold_account_invariant)
qed

lemma sum_list_sort_key_rat:
  fixes f :: "'a \<Rightarrow> rat"
  shows "sum_list (map f (sort_key k xs)) = sum_list (map f xs)"
proof -
  have "sum_mset (mset (map f (sort_key k xs))) = sum_mset (mset (map f xs))" by simp
  then show ?thesis by (simp only: sum_mset_sum_list)
qed






subsection \<open>The order of the stake accounts\<close>

lemma voters_of_iff: "k \<in> voters_of accts \<longleftrightarrow> (\<exists>d. Some d \<in> set accts \<and> del_voter d = k)"
  by (auto simp: voters_of_def in_these_eq)

lemma aggregate_of_absent:
  assumes "k \<notin> voters_of accts"
  shows "aggregate_of k accts = list_validator (new_validator k)"
proof -
  from assms have "\<forall>a\<in>set accts. case a of None \<Rightarrow> True | Some d \<Rightarrow> del_voter d \<noteq> k"
    by (auto simp: voters_of_iff split: option.splits)
  then have "active_of k accts = 0 \<and> deactivating_of k accts = 0 \<and> accounts_of k accts = 0"
    unfolding active_of_def deactivating_of_def accounts_of_def
    by (induction accts) (auto split: option.splits)
  then show ?thesis by (simp add: aggregate_of_def list_validator_def new_validator_def)
qed

lemma aggregate_of_snoc_other:
  "del_voter d \<noteq> k \<Longrightarrow> aggregate_of k (accts @ [Some d]) = aggregate_of k accts"
  "aggregate_of k (accts @ [None]) = aggregate_of k accts"
  by (simp_all add: aggregate_of_def active_of_def deactivating_of_def accounts_of_def)

lemma aggregate_of_snoc_same:
  assumes "list_validator v = aggregate_of (del_voter d) accts"
  shows "list_validator (add_account (del_deactivationEpoch d \<noteq> not_deactivating)
            (rat_of_nat (del_stake d) / 10 ^ 9) e v)
         = aggregate_of (del_voter d) (accts @ [Some d])"
  using assms
  by (simp add: aggregate_of_def active_of_def deactivating_of_def accounts_of_def
      list_validator_def add_account_def Let_def is_deactivating_def stake_sol_def)

lemma voters_of_snoc:
  "voters_of (accts @ [Some d]) = insert (del_voter d) (voters_of accts)"
  "voters_of (accts @ [None]) = voters_of accts"
  by (auto simp: voters_of_iff)

lemma fold_account_summarised:
  assumes "summarised st accts"
  shows "summarised (fold_account st a) (accts @ [a])"
proof (cases a)
  case None
  with assms show ?thesis
    by (simp add: summarised_def fold_account_def voters_of_snoc aggregate_of_snoc_other)
next
  case (Some d)
  define k where "k = del_voter d"
  define vs1 where "vs1 = (if k \<in> set (map voter (validators st)) then validators st
                           else validators st @ [new_validator k])"
  define g where "g = add_account (del_deactivationEpoch d \<noteq> not_deactivating)
                        (rat_of_nat (del_stake d) / 10 ^ 9) (del_activationEpoch d)"
  have vs: "validators (fold_account st a) = map (\<lambda>v. if voter v = k then g v else v) vs1"
    unfolding Some fold_account_validators k_def vs1_def g_def ..
  have vk: "voter (new_validator k) = k" by (simp add: new_validator_def)
  from assms have v1: "set (map voter vs1) = insert k (voters_of accts)"
    by (auto simp: vs1_def summarised_def vk)
  have a1: "list_validator u = aggregate_of (voter u) accts" if "u \<in> set vs1" for u
  proof (cases "u \<in> set (validators st)")
    case True
    with assms show ?thesis by (simp add: summarised_def)
  next
    case False
    with that have u: "u = new_validator k" and "k \<notin> set (map voter (validators st))"
      by (auto simp: vs1_def split: if_splits)
    with assms have "k \<notin> voters_of accts" by (simp add: summarised_def)
    then show ?thesis by (simp add: u vk aggregate_of_absent)
  qed
  have "list_validator v = aggregate_of (voter v) (accts @ [a])"
    if "v \<in> set (map (\<lambda>v. if voter v = k then g v else v) vs1)" for v
  proof -
    from that obtain u where u: "u \<in> set vs1" "v = (if voter u = k then g u else u)" by auto
    show ?thesis
    proof (cases "voter u = k")
      case True
      from a1 [OF u(1)] True have "list_validator u = aggregate_of (del_voter d) accts"
        by (simp add: k_def)
      from aggregate_of_snoc_same [OF this] True u(2) show ?thesis
        by (simp add: g_def Some k_def)
    next
      case False
      with u a1 [OF u(1)] show ?thesis by (simp add: Some k_def aggregate_of_snoc_other)
    qed
  qed
  moreover have "set (map voter (map (\<lambda>v. if voter v = k then g v else v) vs1)) = voters_of (accts @ [a])"
    using v1 by (simp add: g_def Some voters_of_snoc k_def comp_def if_distrib [of voter] cong: if_cong)
  moreover from assms have "totalEmpty (fold_account st a) = length (filter (\<lambda>a. a = None) (accts @ [a]))"
    by (simp add: Some fold_account_totals summarised_def)
  ultimately show ?thesis unfolding summarised_def vs by blast
qed

lemma fold_accounts_summarised: "summarised (fold_accounts accts) accts"
proof (induction accts rule: rev_induct)
  case Nil
  show ?case
    by (simp add: fold_accounts_def init_totals_def summarised_def voters_of_def Option.these_def)
next
  case (snoc a accts)
  then show ?case by (simp add: fold_accounts_snoc fold_account_summarised)
qed




lemma e_fold_account_sim: "e_fold_account (e_of_totals st) a = e_of_totals (fold_account st a)"
  by (cases a)
    (simp_all add: e_fold_account_def fold_account_def e_of_totals_def Let_def e_of_listed_def
      list_validator_def comp_def new_validator_def add_account_def e_add_account_def image_image)

lemma e_fold_accounts_sim: "e_fold_accounts accts = e_of_totals (fold_accounts accts)"
proof (induction accts rule: rev_induct)
  case Nil
  show ?case
    by (simp add: e_fold_accounts_def fold_accounts_def e_init_totals_def init_totals_def e_of_totals_def)
next
  case (snoc a accts)
  then show ?case
    by (simp add: e_fold_accounts_def fold_accounts_def e_fold_account_sim)
qed






section \<open>Properties of the percentages\<close>








section \<open>Validators without active stake\<close>

lemma staked_stake: "n_stake (nvalidator_of meta d staked_vote_account) = 1"
  by (simp add: nvalidator_of_def staked_vote_account_def)

lemma network_two_allVals:
  "map n_stake (network_allVals unknown_metadata [idle_vote_account, staked_vote_account] []) = [1, 0]"
  by (simp add: network_allVals_def staked_stake idle_stake)

lemma nd_gini_eq:
  "nd_gini (nr_decentralization (network_main meta current delinquent))
     = gini (map n_stake (network_allVals meta current delinquent))"
  by (simp add: network_main_def Let_def)

lemma gini_one_zero: "gini [1, 0] = Num (1 / 2)"
  by (simp add: gini_def giniSum_def Let_def upt_rec [of 0] upt_rec [of 1])

text \<open>
  C3, as the claim states it, fails in collect-network.js, which computes its metrics over
  all vote accounts: with two current validators, one holding nothing and one holding one SOL, the Gini
  coefficient of the report is \<open>1/2\<close>; over the validators with stake above 0 it is 0.
\<close>

theorem network_gini_counts_zero_stake_counterexample:
  "nd_gini (nr_decentralization (network_main unknown_metadata [idle_vote_account, staked_vote_account] []))
     = Num (1 / 2)
   \<and> gini (filter (\<lambda>s. 0 < s)
        (map n_stake (map nl_validator
           (nr_validators (network_main unknown_metadata [idle_vote_account, staked_vote_account] [])))))
     = Num 0"
  by (simp add: nd_gini_eq nr_validators_eq network_two_allVals gini_one_zero)
    (simp add: gini_def giniSum_def Let_def)

lemma allValidators_voters:
  "set (map l_voter (a_allValidators (analyzeStakeAccounts accts))) = voters_of accts"
proof -
  have "set (map l_voter (a_allValidators (analyzeStakeAccounts accts)))
      = set (map voter (validators (fold_accounts accts)))"
    by (simp add: analyzeStakeAccounts_def Let_def sortedValidators_def list_validator_def image_image)
  with fold_accounts_summarised [of accts] show ?thesis by (simp add: summarised_def)
qed

lemma ea_validators_voters:
  "set (map en_voter (ea_validators (enhanced_account meta accts))) = voters_of accts"
proof -
  have "set (map en_voter (ea_validators (enhanced_account meta accts)))
      = set (map voter (validators (fold_accounts accts)))"
    by (simp add: enhanced_account_def Let_def enrich_def image_image e_fold_accounts_sim
        e_of_totals_def e_of_listed_def list_validator_def)
  with fold_accounts_summarised [of accts] show ?thesis by (simp add: summarised_def)
qed

text \<open>
  A delegation that is deactivating adds to no active stake: it changes no concentration
  metric of the analysis, whether its voter is new or not.
\<close>

lemma map_insort_key:
  "map h (insort_key (\<lambda>x. g (h x)) x xs) = insort_key g (h x) (map h xs)"
  by (induction xs) simp_all

lemma map_sort_key: "map h (sort_key (\<lambda>x. g (h x)) xs) = sort_key g (map h xs)"
  by (induction xs) (simp_all add: map_insort_key)

lemma active_stakes_of_sorted:
  "map activeStake (filter (\<lambda>v. 0 < activeStake v) (sortedValidators vs))
     = sort_key uminus (filter (\<lambda>s. 0 < s) (map activeStake vs))"
proof -
  have "map activeStake (filter (\<lambda>v. 0 < activeStake v) (sortedValidators vs))
      = filter (\<lambda>s. 0 < s) (map activeStake (sort_key (\<lambda>v. - activeStake v) vs))"
    by (simp add: sortedValidators_def filter_map comp_def)
  also have "\<dots> = filter (\<lambda>s. 0 < s) (sort_key uminus (map activeStake vs))"
    by (simp only: map_sort_key [of activeStake uminus])
  finally show ?thesis by (simp only: filter_sort)
qed

lemma deactivating_keeps_active_stakes:
  assumes "del_deactivationEpoch d \<noteq> not_deactivating"
  shows "filter (\<lambda>s. 0 < s) (map activeStake (validators (fold_account st (Some d))))
       = filter (\<lambda>s. 0 < s) (map activeStake (validators st))"
  using assms
  by (simp add: fold_account_validators add_account_def Let_def new_validator_def comp_def
      if_distrib [of activeStake] cong: if_cong)

lemma deactivating_delegation_ignored:
  assumes "del_deactivationEpoch d \<noteq> not_deactivating"
  shows "a_decentralization (analyzeStakeAccounts (accts @ [Some d]))
       = a_decentralization (analyzeStakeAccounts accts)"
proof -
  from assms have "totalActive (fold_accounts (accts @ [Some d])) = totalActive (fold_accounts accts)"
    by (simp add: fold_accounts_snoc fold_account_totals)
  moreover from deactivating_keeps_active_stakes [OF assms, of "fold_accounts accts"]
  have "map activeStake (filter (\<lambda>v. 0 < activeStake v)
          (sortedValidators (validators (fold_accounts (accts @ [Some d])))))
      = map activeStake (filter (\<lambda>v. 0 < activeStake v)
          (sortedValidators (validators (fold_accounts accts))))"
    by (simp add: active_stakes_of_sorted fold_accounts_snoc)
  ultimately show ?thesis by (simp add: analyzeStakeAccounts_def Let_def)
qed

text \<open>
  C3, amended. In \<open>analyzeStakeAccounts\<close> and in collect-enhanced.js the concentration
  metrics of an authority are computed from the active stakes above 0 of the listed
  validators, and \<open>activeValidators\<close> counts these; the listing itself and
  \<open>uniqueValidators\<close> keep every voter that has a delegation, those without active
  stake included.
\<close>

theorem zero_stake_excluded_per_authority:
  "(let r = analyzeStakeAccounts accts;
        stakes = filter (\<lambda>s. 0 < s) (map l_activeStake (a_allValidators r))
    in a_decentralization r =
         \<lparr>d_nakamotoCoeff33 = nakamoto33 stakes (a_totalActive r),
          d_superminorityCount = superminority stakes (a_totalActive r),
          d_hhi = hhi stakes (a_totalActive r),
          d_gini = gini stakes\<rparr>
       \<and> a_activeValidators r = length stakes
       \<and> a_uniqueValidators r = length (a_allValidators r)
       \<and> set (map l_voter (a_allValidators r)) = voters_of accts)
   \<and> (let e = enhanced_account meta accts;
            stakes = filter (\<lambda>s. 0 < s) (map en_activeStake (ea_validators e))
        in ea_decentralization e =
             \<lparr>ed_nakamotoCoeff33 = nakamoto33 stakes (ea_totalActive e),
              ed_hhi = hhi stakes (ea_totalActive e),
              ed_gini = gini stakes,
              ed_topValidatorPct = e_topValidatorPct stakes (ea_totalActive e),
              ed_top10Pct = topNPct 10 stakes (ea_totalActive e)\<rparr>
           \<and> ea_activeValidators e = length stakes
           \<and> set (map en_voter (ea_validators e)) = voters_of accts)"
proof -
  have a: "a_decentralization (analyzeStakeAccounts accts) =
         \<lparr>d_nakamotoCoeff33 = nakamoto33 (filter (\<lambda>s. 0 < s) (map l_activeStake (a_allValidators (analyzeStakeAccounts accts)))) (a_totalActive (analyzeStakeAccounts accts)),
          d_superminorityCount = superminority (filter (\<lambda>s. 0 < s) (map l_activeStake (a_allValidators (analyzeStakeAccounts accts)))) (a_totalActive (analyzeStakeAccounts accts)),
          d_hhi = hhi (filter (\<lambda>s. 0 < s) (map l_activeStake (a_allValidators (analyzeStakeAccounts accts)))) (a_totalActive (analyzeStakeAccounts accts)),
          d_gini = gini (filter (\<lambda>s. 0 < s) (map l_activeStake (a_allValidators (analyzeStakeAccounts accts))))\<rparr>
       \<and> a_activeValidators (analyzeStakeAccounts accts) = length (filter (\<lambda>s. 0 < s) (map l_activeStake (a_allValidators (analyzeStakeAccounts accts))))
       \<and> a_uniqueValidators (analyzeStakeAccounts accts) = length (a_allValidators (analyzeStakeAccounts accts))"
    by (simp add: analyzeStakeAccounts_def Let_def filter_map comp_def list_validator_def sortedValidators_def)
  have e: "ea_decentralization (enhanced_account meta accts) =
             \<lparr>ed_nakamotoCoeff33 = nakamoto33 (filter (\<lambda>s. 0 < s) (map en_activeStake (ea_validators (enhanced_account meta accts)))) (ea_totalActive (enhanced_account meta accts)),
              ed_hhi = hhi (filter (\<lambda>s. 0 < s) (map en_activeStake (ea_validators (enhanced_account meta accts)))) (ea_totalActive (enhanced_account meta accts)),
              ed_gini = gini (filter (\<lambda>s. 0 < s) (map en_activeStake (ea_validators (enhanced_account meta accts)))),
              ed_topValidatorPct = e_topValidatorPct (filter (\<lambda>s. 0 < s) (map en_activeStake (ea_validators (enhanced_account meta accts)))) (ea_totalActive (enhanced_account meta accts)),
              ed_top10Pct = topNPct 10 (filter (\<lambda>s. 0 < s) (map en_activeStake (ea_validators (enhanced_account meta accts)))) (ea_totalActive (enhanced_account meta accts))\<rparr>
           \<and> ea_activeValidators (enhanced_account meta accts) = length (filter (\<lambda>s. 0 < s) (map en_activeStake (ea_validators (enhanced_account meta accts))))"
    by (simp add: enhanced_account_def Let_def filter_map comp_def enrich_def)
  from a e show ?thesis
    unfolding Let_def using allValidators_voters [of accts] ea_validators_voters [of meta accts]
    by blast
qed

section \<open>Properties of the combined section\<close>






















lemma nakamoto33_positive_total:
  assumes "0 < sum_list D"
  shows "1 \<le> nakamoto33 D (sum_list D) \<and> nakamoto33 D (sum_list D) \<le> length D
       \<and> sum_list D / 3 \<le> sum_list (take (nakamoto33 D (sum_list D)) D)
       \<and> (\<forall>j<nakamoto33 D (sum_list D). sum_list (take j D) < sum_list D / 3)"
proof -
  from assms have pos: "0 < sum_list D / 3" and le: "sum_list D / 3 \<le> 0 + sum_list D" by simp_all
  from prefix_count_first [OF pos le, of 0] obtain j where
    j: "prefix_count (sum_list D / 3) 0 0 D = 0 + j" "1 \<le> j" "j \<le> length D"
       "sum_list D / 3 \<le> 0 + sum_list (take j D)"
       "\<forall>i<j. 0 + sum_list (take i D) < sum_list D / 3"
    by blast
  then have "nakamoto33 D (sum_list D) = j" by (simp add: nakamoto33_def)
  with j show ?thesis by simp
qed









section \<open>The Nakamoto coefficient of an analysis\<close>

lemma active_of_nonneg: "0 \<le> active_of k accts"
  unfolding active_of_def
  by (rule sum_list_nonneg) (auto simp: stake_sol_def split: option.splits)

lemma sum_list_filter_pos:
  fixes xs :: "rat list"
  assumes "\<forall>x\<in>set xs. 0 \<le> x"
  shows "sum_list (filter (\<lambda>s. 0 < s) xs) = sum_list xs"
  using assms by (induction xs) (auto simp: not_less)

lemma analysis_totals:
  "a_totalActive (analyzeStakeAccounts accts)
     = sum_list (map l_activeStake (a_allValidators (analyzeStakeAccounts accts)))"
  using fold_accounts_invariant [of accts]
  by (simp add: fold_invariant_def analyzeStakeAccounts_def Let_def sortedValidators_def
      comp_def list_validator_def sum_list_sort_key_rat)

lemma analysis_total_is_sum:
  "a_totalActive (analyzeStakeAccounts accts)
     = sum_list (filter (\<lambda>s. 0 < s) (map l_activeStake (a_allValidators (analyzeStakeAccounts accts))))"
proof -
  let ?r = "analyzeStakeAccounts accts"
  have "\<forall>x\<in>set (map l_activeStake (a_allValidators ?r)). 0 \<le> x"
  proof
    fix x assume "x \<in> set (map l_activeStake (a_allValidators ?r))"
    then obtain v where v: "v \<in> set (validators (fold_accounts accts))" "x = l_activeStake (list_validator v)"
      by (auto simp: analyzeStakeAccounts_def Let_def sortedValidators_def)
    with fold_accounts_summarised [of accts] have "x = active_of (voter v) accts"
      by (simp add: summarised_def aggregate_of_def)
    then show "0 \<le> x" by (simp add: active_of_nonneg)
  qed
  then have "sum_list (filter (\<lambda>s. 0 < s) (map l_activeStake (a_allValidators ?r)))
      = sum_list (map l_activeStake (a_allValidators ?r))"
    by (rule sum_list_filter_pos)
  with analysis_totals [of accts] show ?thesis by simp
qed

text \<open>
  The analysis meets the premises of the statement about the Nakamoto loop: its stakes are
  above 0 and sum to \<open>totalActive\<close>. So whenever it has an active validator, its
  \<open>nakamotoCoeff33\<close> is the smallest prefix count of its distribution that reaches one
  third of \<open>totalActive\<close>.
\<close>

lemma analysis_nakamoto:
  assumes "0 < a_activeValidators (analyzeStakeAccounts accts)"
  shows "(let r = analyzeStakeAccounts accts;
              stakes = filter (\<lambda>s. 0 < s) (map l_activeStake (a_allValidators r));
              k = d_nakamotoCoeff33 (a_decentralization r)
          in 1 \<le> k \<and> k \<le> a_activeValidators r
             \<and> a_totalActive r / 3 \<le> sum_list (take k stakes)
             \<and> (\<forall>j<k. sum_list (take j stakes) < a_totalActive r / 3))"
proof -
  let ?r = "analyzeStakeAccounts accts"
  let ?S = "filter (\<lambda>s. 0 < s) (map l_activeStake (a_allValidators ?r))"
  have k: "d_nakamotoCoeff33 (a_decentralization ?r) = nakamoto33 ?S (a_totalActive ?r)"
    and n: "a_activeValidators ?r = length ?S"
    by (simp_all add: analyzeStakeAccounts_def Let_def filter_map comp_def list_validator_def
        sortedValidators_def)
  from assms have "0 < length ?S" by (simp only: n)
  then have "?S \<noteq> []" using length_greater_0_conv by blast
  moreover have "\<forall>s\<in>set ?S. 0 < s" by simp
  ultimately have "0 < sum_list ?S" by (rule sum_list_pos_rat)
  from nakamoto33_positive_total [OF this] show ?thesis
    unfolding Let_def k n analysis_total_is_sum [symmetric] .
qed

section \<open>Properties of the decimal strings\<close>

lemma digit_value: "d < 10 \<Longrightarrow> of_char (digit_char d) - 48 = d"
proof -
  assume "d < 10"
  then consider "d = 0" | "d = 1" | "d = 2" | "d = 3" | "d = 4" | "d = 5" | "d = 6" | "d = 7"
    | "d = 8" | "d = 9" by atomize_elim arith
  then show ?thesis by cases (simp_all add: digit_char_def)
qed

lemma nat_of_digits_snoc: "nat_of_digits (s @ [c]) = 10 * nat_of_digits s + (of_char c - 48)"
  by (simp add: nat_of_digits_def)

text \<open>Reading a decimal numeral gives the number back.\<close>

lemma nat_of_digits_decimal: "nat_of_digits (decimal n) = n"
proof (induction n rule: decimal.induct)
  case (1 n)
  show ?case
  proof (cases "n < 10")
    case True
    then have "decimal n = [digit_char n]" by (simp add: decimal.simps)
    with True show ?thesis by (simp add: nat_of_digits_def digit_value)
  next
    case False
    then have d: "decimal n = decimal (n div 10) @ [digit_char (n mod 10)]"
      by (subst decimal.simps) simp
    from False 1 have "nat_of_digits (decimal (n div 10)) = n div 10" by simp
    then show ?thesis by (simp add: d nat_of_digits_snoc digit_value)
  qed
qed

lemma nat_of_digits_zeros: "nat_of_digits (replicate k CHR ''0'' @ s) = nat_of_digits s"
proof (induction k)
  case 0
  show ?case by simp
next
  case (Suc k)
  have "nat_of_digits (CHR ''0'' # t) = nat_of_digits t" for t
    by (simp add: nat_of_digits_def)
  with Suc show ?case by simp
qed

lemma drop_dot: "filter (\<lambda>c. c \<noteq> d) (take k m @ d # drop k m) = filter (\<lambda>c. c \<noteq> d) m"
proof -
  have "filter (\<lambda>c. c \<noteq> d) m = filter (\<lambda>c. c \<noteq> d) (take k m @ drop k m)"
    by (simp only: append_take_drop_id)
  also have "\<dots> = filter (\<lambda>c. c \<noteq> d) (take k m) @ filter (\<lambda>c. c \<noteq> d) (drop k m)"
    by (rule filter_append)
  finally show ?thesis by simp
qed

text \<open>The digits of \<open>toFixed\<close>, the point left out, are the decimal numeral of the rounded integer.\<close>

lemma fixed_digits_value:
  "nat_of_digits (filter (\<lambda>c. c \<noteq> CHR ''.'') (fixed_digits f x)) = nat \<lfloor>x * 10 ^ f + 1 / 2\<rfloor>"
proof -
  define n where "n = nat \<lfloor>x * 10 ^ f + 1 / 2\<rfloor>"
  have nodot: "filter (\<lambda>c. c \<noteq> CHR ''.'') (decimal m) = decimal m" for m
  proof (induction m rule: decimal.induct)
    case (1 m)
    have dc: "digit_char d \<noteq> CHR ''.''" if "d < 10" for d
    proof -
      from that consider "d = 0" | "d = 1" | "d = 2" | "d = 3" | "d = 4" | "d = 5" | "d = 6"
        | "d = 7" | "d = 8" | "d = 9" by atomize_elim arith
      then show ?thesis by cases (simp_all add: digit_char_def)
    qed
    show ?case
    proof (cases "m < 10")
      case True
      then show ?thesis by (simp add: decimal.simps [of m] dc)
    next
      case False
      with 1 show ?thesis by (subst (1 2) decimal.simps [of m]) (simp add: dc)
    qed
  qed
  define m where "m = (if f \<noteq> 0 \<and> length (decimal n) \<le> f
            then replicate (f + 1 - length (decimal n)) CHR ''0'' @ decimal n else decimal n)"
  have m: "filter (\<lambda>c. c \<noteq> CHR ''.'') m = m" by (simp add: m_def nodot)
  have v: "nat_of_digits m = n" by (simp add: m_def nat_of_digits_zeros nat_of_digits_decimal)
  have f: "fixed_digits f x = (if f = 0 then m else take (length m - f) m @ CHR ''.'' # drop (length m - f) m)"
    unfolding fixed_digits_def Let_def n_def m_def by simp
  have "filter (\<lambda>c. c \<noteq> CHR ''.'') (fixed_digits f x) = m"
    unfolding f using m by (simp only: drop_dot if_cancel split: if_splits) simp
  with v show ?thesis by (simp add: n_def)
qed

text \<open>
  For a number that is not negative, the value of the digits is within half a unit of the
  last digit.
\<close>

lemma rounding_error:
  assumes "0 \<le> x"
  shows "\<bar>rat_of_nat (nat \<lfloor>x * 10 ^ f + 1 / 2\<rfloor>) / 10 ^ f - x\<bar> \<le> 1 / (2 * 10 ^ f)"
proof -
  define y where "y = x * 10 ^ f"
  from assms have "0 \<le> y" by (simp add: y_def)
  then have "0 \<le> \<lfloor>y + 1 / 2\<rfloor>" by simp
  then have n: "rat_of_nat (nat \<lfloor>y + 1 / 2\<rfloor>) = rat_of_int \<lfloor>y + 1 / 2\<rfloor>" by simp
  have "rat_of_int \<lfloor>y + 1 / 2\<rfloor> \<le> y + 1 / 2" "y + 1 / 2 < rat_of_int \<lfloor>y + 1 / 2\<rfloor> + 1"
    by linarith+
  then have "\<bar>rat_of_int \<lfloor>y + 1 / 2\<rfloor> - y\<bar> \<le> 1 / 2" by linarith
  then have "\<bar>rat_of_int \<lfloor>y + 1 / 2\<rfloor> - y\<bar> / 10 ^ f \<le> (1 / 2) / 10 ^ f"
    by (rule divide_right_mono) simp
  moreover have "rat_of_int \<lfloor>y + 1 / 2\<rfloor> / 10 ^ f - x = (rat_of_int \<lfloor>y + 1 / 2\<rfloor> - y) / 10 ^ f"
    by (simp add: y_def diff_divide_distrib)
  then have "\<bar>rat_of_int \<lfloor>y + 1 / 2\<rfloor> - y\<bar> / 10 ^ f = \<bar>rat_of_int \<lfloor>y + 1 / 2\<rfloor> / 10 ^ f - x\<bar>"
    by simp
  ultimately have r: "\<bar>rat_of_int \<lfloor>y + 1 / 2\<rfloor> / 10 ^ f - x\<bar> \<le> 1 / (2 * 10 ^ f)" by simp
  from \<open>0 \<le> \<lfloor>y + 1 / 2\<rfloor>\<close> have "rat_of_nat (nat \<lfloor>x * 10 ^ f + 1 / 2\<rfloor>) = rat_of_int \<lfloor>x * 10 ^ f + 1 / 2\<rfloor>"
    unfolding y_def by (rule of_nat_nat)
  with r show ?thesis unfolding y_def by (simp only:)
qed

end
